theory Spec2Isabelle
  imports Complex_Main
begin

section \<open>ROI statistics of suite2p (suite2p/detection/stats.py)\<close>

subsection \<open>Numbers, arrays and errors\<close>

text \<open>
  A numpy float64 is idealised: a finite value is a real number (no rounding, no
  overflow), and \<open>None\<close> stands for a non-finite value (nan, inf or -inf). A non-finite
  operand makes every result below non-finite; numpy agrees except where a finite value
  is divided by an infinite one, which the code modelled here does not do on arrays
  whose entries are finite or nan. Dividing by zero gives a non-finite value (numpy
  warns, it does not raise), and so does the square root of a negative number.
\<close>

type_synonym f64 = "real option"

datatype error = TypeError | ValueError | LinAlgError | KeyError | AttributeError

definition fadd :: "f64 \<Rightarrow> f64 \<Rightarrow> f64" where
  "fadd a b = (case (a, b) of (Some u, Some v) \<Rightarrow> Some (u + v) | _ \<Rightarrow> None)"

definition fsub :: "f64 \<Rightarrow> f64 \<Rightarrow> f64" where
  "fsub a b = (case (a, b) of (Some u, Some v) \<Rightarrow> Some (u - v) | _ \<Rightarrow> None)"

definition fmul :: "f64 \<Rightarrow> f64 \<Rightarrow> f64" where
  "fmul a b = (case (a, b) of (Some u, Some v) \<Rightarrow> Some (u * v) | _ \<Rightarrow> None)"

definition fdiv :: "f64 \<Rightarrow> f64 \<Rightarrow> f64" where
  "fdiv a b = (case (a, b) of
       (Some u, Some v) \<Rightarrow> (if v = 0 then None else Some (u / v))
     | _ \<Rightarrow> None)"

definition fsqrt :: "f64 \<Rightarrow> f64" where
  \<comment> \<open>\<open>a ** .5\<close>\<close>
  "fsqrt a = (case a of Some u \<Rightarrow> (if u < 0 then None else Some (sqrt u)) | None \<Rightarrow> None)"

definition fsum :: "f64 list \<Rightarrow> f64" where
  \<comment> \<open>\<open>a.sum()\<close>; the sum of no entries is 0.0\<close>
  "fsum xs = foldr fadd xs (Some 0)"

definition fmean :: "f64 list \<Rightarrow> f64" where
  \<comment> \<open>\<open>np.mean\<close>: the mean of no entries is nan (a warning, not an exception)\<close>
  "fmean xs = fdiv (fsum xs) (Some (real (length xs)))"

definition median_sorted :: "real list \<Rightarrow> real" where
  "median_sorted s = (let n = length s in
     if odd n then s ! (n div 2) else (s ! (n div 2 - 1) + s ! (n div 2)) / 2)"

definition np_median :: "f64 list \<Rightarrow> f64" where
  \<comment> \<open>\<open>np.median\<close>: nan for no entries and whenever an entry is nan\<close>
  "np_median xs = (if xs = [] then None
     else case those xs of None \<Rightarrow> None | Some rs \<Rightarrow> Some (median_sorted (sort rs)))"

definition np_nanmedian :: "f64 list \<Rightarrow> f64" where
  \<comment> \<open>\<open>np.nanmedian\<close>: the median of the entries that are not nan (the values it is given
      here are finite or nan)\<close>
  "np_nanmedian xs = np_median (filter (\<lambda>v. v \<noteq> None) xs)"

definition bcast :: "('a \<Rightarrow> 'b \<Rightarrow> 'c) \<Rightarrow> 'a list \<Rightarrow> 'b list \<Rightarrow> error + 'c list" where
  \<comment> \<open>an elementwise operation on two one-dimensional arrays, with numpy's broadcasting:
      equal lengths, or one of them of length 1, else ValueError\<close>
  "bcast f a b =
     (if length a = length b then Inr (map2 f a b)
      else if length a = 1 then Inr (map (f (hd a)) b)
      else if length b = 1 then Inr (map (\<lambda>u. f u (hd b)) a)
      else Inl ValueError)"

definition dot :: "f64 list \<Rightarrow> f64 list \<Rightarrow> f64" where
  \<comment> \<open>one entry of \<open>a @ b.T\<close>, for rows of equal length\<close>
  "dot a b = fsum (map2 fmul a b)"

subsection \<open>The radial reference table\<close>

definition distance_kernel :: "int \<Rightarrow> real list list" where
  \<comment> \<open>\<open>d = np.arange(-radius, radius + 1)\<close>; \<open>np.meshgrid(d, d)\<close> is the pair of grids
      \<open>X[i][j] = d[j]\<close>, \<open>Y[i][j] = d[i]\<close>, and \<open>norm(_, axis=0)\<close> their pointwise norm\<close>
  "distance_kernel radius =
     (let d = [- radius .. radius]
      in map (\<lambda>yi. map (\<lambda>xj. sqrt ((real_of_int xj)\<^sup>2 + (real_of_int yi)\<^sup>2)) d) d)"

definition radial_reference :: "int \<Rightarrow> real list" where
  \<comment> \<open>\<open>np.sort(distance_kernel(radius=radius).flatten())\<close>\<close>
  "radial_reference radius = sort (concat (distance_kernel radius))"

definition rsort_default :: "real list" where
  \<comment> \<open>the default of the field \<open>rsort\<close>\<close>
  "rsort_default = radial_reference 30"

subsection \<open>Module-level functions\<close>

definition mean_r_squared :: "f64 list \<Rightarrow> f64 list \<Rightarrow> (f64 list \<Rightarrow> f64) \<Rightarrow> error + f64" where
  \<comment> \<open>\<open>np.mean(norm(((y - estimator(y)), (x - estimator(x))), axis=0))\<close>. The pair of
      arrays is made a two-row array, which numpy refuses (ValueError) when the rows
      differ in length; the norm along axis 0 is the square root of the sum of the
      squares of the two rows.\<close>
  "mean_r_squared y x estimator =
     (let cy = map (\<lambda>v. fsub v (estimator y)) y;
          cx = map (\<lambda>v. fsub v (estimator x)) x
      in if length cy \<noteq> length cx then Inl ValueError
         else Inr (fmean (map2 (\<lambda>a b. fsqrt (fadd (fmul a a) (fmul b b))) cy cx)))"

definition aspect_ratio :: "real \<Rightarrow> real \<Rightarrow> real \<Rightarrow> f64" where
  \<comment> \<open>\<open>2 * ry / (ry + rx + offset)\<close>. A zero denominator gives no finite value: inf or nan
      on numpy scalars, ZeroDivisionError on Python floats.\<close>
  "aspect_ratio ry rx offset = fdiv (Some (2 * ry)) (Some (ry + rx + offset))"

definition aspect_ratio_offset :: real where
  \<comment> \<open>the default \<open>offset=.01\<close>\<close>
  "aspect_ratio_offset = 1 / 100"

subsection \<open>The weighted Gaussian ellipse fit\<close>

type_synonym mat2 = "(real \<times> real) \<times> (real \<times> real)"

text \<open>
  LAPACK's eigensolver behind \<open>np.linalg.eig\<close> is not code of this repository: it is a
  parameter of the model, a function from a finite 2x2 matrix to its two eigenvalues and
  the matrix whose columns are the eigenvectors. The covariance matrix is symmetric, so
  both are real and \<open>np.real\<close> changes nothing.
\<close>

type_synonym eigensolver = "mat2 \<Rightarrow> (real \<times> real) \<times> mat2"

definition np_linalg_eig ::
  "eigensolver \<Rightarrow> (f64 \<times> f64) \<times> (f64 \<times> f64) \<Rightarrow> error + ((real \<times> real) \<times> mat2)" where
  \<comment> \<open>\<open>np.linalg.eig\<close> raises LinAlgError ("Array must not contain infs or NaNs") on a
      matrix with a non-finite entry, before it calls the solver\<close>
  "np_linalg_eig solver a =
     (case a of
        ((Some a00, Some a01), (Some a10, Some a11)) \<Rightarrow> Inr (solver ((a00, a01), (a10, a11)))
      | _ \<Rightarrow> Inl LinAlgError)"

definition eig_sym2 :: eigensolver where
  \<comment> \<open>an instance of the solver in closed form, for symmetric matrices; it serves to
      evaluate the model at concrete inputs (LAPACK may order and sign the pairs
      otherwise)\<close>
  "eig_sym2 m =
     (let a = fst (fst m); b = snd (fst m); d = snd (snd m);
          h = sqrt (((a - d) / 2)\<^sup>2 + b\<^sup>2);
          l1 = (a + d) / 2 + h; l2 = (a + d) / 2 - h
      in if b = 0 then ((a, d), ((1, 0), (0, 1)))
         else let n1 = sqrt (b\<^sup>2 + (l1 - a)\<^sup>2); n2 = sqrt (b\<^sup>2 + (l2 - a)\<^sup>2)
              in ((l1, l2), ((b / n1, b / n2), ((l1 - a) / n1, (l2 - a) / n2))))"

definition linspace :: "real \<Rightarrow> nat \<Rightarrow> real list" where
  \<comment> \<open>\<open>np.linspace(0, stop, num)\<close>: \<open>num\<close> points from 0 to \<open>stop\<close>, both included\<close>
  "linspace stop num =
     (if num = 1 then [0] else map (\<lambda>i. real i * (stop / real (num - 1))) [0..<num])"

record EllipseData =
  mu :: "f64 \<times> f64"
  cov :: "(f64 \<times> f64) \<times> (f64 \<times> f64)"
  radii :: "real \<times> real"
  ellipse :: "(f64 \<times> f64) list"

definition area :: "EllipseData \<Rightarrow> real" where
  \<comment> \<open>\<open>(self.radii[0] * self.radii[1]) ** 0.5 * np.pi\<close>\<close>
  "area e = sqrt (fst (radii e) * snd (radii e)) * pi"

definition fit_normalized ::
  "eigensolver \<Rightarrow> f64 list \<Rightarrow> f64 list \<Rightarrow> f64 list \<Rightarrow> real \<Rightarrow> nat \<Rightarrow> error + EllipseData" where
  \<comment> \<open>lines 149 to 165 of \<open>fitMVGaus\<close>, on the weights as line 147 left them.
      \<open>np.stack((y, x))\<close> raises ValueError when the shapes differ; \<open>lam * yx\<close> and
      \<open>(yx - mu[:, np.newaxis]) * lam ** .5\<close> broadcast the weights over the two rows.\<close>
  "fit_normalized solver y x lam1 thres npts =
     (if length y \<noteq> length x then Inl ValueError
      else case (bcast fmul lam1 y, bcast fmul lam1 x) of
        (Inr ly, Inr lx) \<Rightarrow>
          (let mu' = (fsum ly, fsum lx);
               cy = map (\<lambda>v. fsub v (fst mu')) y;
               cx = map (\<lambda>v. fsub v (snd mu')) x;
               rl = map fsqrt lam1
           in case (bcast fmul cy rl, bcast fmul cx rl) of
             (Inr wy, Inr wx) \<Rightarrow>
               (let cov' = ((dot wy wy, dot wy wx), (dot wx wy, dot wx wx))
                in case np_linalg_eig solver cov' of
                  Inl e \<Rightarrow> Inl e
                | Inr (w, evec) \<Rightarrow>
                    (let r0 = thres * sqrt (max 0 (fst w));
                         r1 = thres * sqrt (max 0 (snd w));
                         theta = linspace (2 * pi) npts;
                         pts = map (\<lambda>t.
                           (fadd (Some (cos t * r0 * fst (fst evec) + sin t * r1 * snd (fst evec)))
                                 (fst mu'),
                            fadd (Some (cos t * r0 * fst (snd evec) + sin t * r1 * snd (snd evec)))
                                 (snd mu'))) theta
                     in Inr \<lparr>mu = mu', cov = cov', radii = (max r0 r1, min r0 r1),
                             ellipse = pts\<rparr>))
           | _ \<Rightarrow> Inl ValueError)
      | _ \<Rightarrow> Inl ValueError)"

definition fitMVGaus ::
  "eigensolver \<Rightarrow> f64 list \<Rightarrow> f64 list \<Rightarrow> f64 list \<Rightarrow> real \<Rightarrow> nat
     \<Rightarrow> f64 list \<times> (error + EllipseData)" where
  \<comment> \<open>\<open>lam /= lam.sum()\<close> divides in place, in the caller's array: the first component is
      the content of that array when the call ends (by return or by exception), the
      second is the outcome. \<open>y\<close> and \<open>x\<close> are only read. \<open>lam\<close> is a float array (on an
      integer array numpy refuses the in-place division with a TypeError). The quotients
      are exact here: float64 rounds them, and its sum can overflow to inf.\<close>
  "fitMVGaus solver y x lam thres npts =
     (let lam1 = map (\<lambda>w. fdiv w (fsum lam)) lam
      in (lam1, fit_normalized solver y x lam1 thres npts))"

definition calc_radii ::
  "eigensolver \<Rightarrow> real \<Rightarrow> real \<Rightarrow> f64 list \<Rightarrow> f64 list \<Rightarrow> f64 list
     \<Rightarrow> f64 list \<times> (error + real \<times> real)" where
  \<comment> \<open>\<open>fitMVGaus(ypix / dy, xpix / dx, lam, 2).radii\<close>, with the default \<open>npts=100\<close>; the
      quotients are new arrays, \<open>lam\<close> is passed on as it is\<close>
  "calc_radii solver dy dx ypix xpix lam =
     (case fitMVGaus solver (map (\<lambda>v. fdiv v (Some dy)) ypix)
                            (map (\<lambda>v. fdiv v (Some dx)) xpix) lam 2 100 of
        (lam1, Inl e) \<Rightarrow> (lam1, Inl e)
      | (lam1, Inr fit) \<Rightarrow> (lam1, Inr (radii fit)))"

subsection \<open>The ROI\<close>

record ROI =
  ypix :: "f64 list"
  xpix :: "f64 list"
  lam :: "f64 list"
  dx :: "int option"
  dy :: "int option"
  rsort :: "real list"

definition ROI_init ::
  "f64 list \<Rightarrow> f64 list \<Rightarrow> f64 list \<Rightarrow> int option \<Rightarrow> int option \<Rightarrow> real list option
     \<Rightarrow> error + ROI" where
  \<comment> \<open>the constructor with \<open>__post_init__\<close>; \<open>rsort\<close> is optional and defaults to the table
      of radius 30. The arrays are one-dimensional, so their shapes are their lengths.\<close>
  "ROI_init yp xp lm dx' dy' rs =
     (if length xp \<noteq> length yp \<or> length xp \<noteq> length lm then Inl TypeError
      else Inr \<lparr>ypix = yp, xpix = xp, lam = lm, dx = dx', dy = dy',
                rsort = (case rs of None \<Rightarrow> rsort_default | Some t \<Rightarrow> t)\<rparr>)"

definition ROI_mean_r_squared :: "ROI \<Rightarrow> error + f64" where
  "ROI_mean_r_squared roi = mean_r_squared (ypix roi) (xpix roi) np_median"

definition ROI_mean_r_squared0 :: "ROI \<Rightarrow> f64" where
  \<comment> \<open>\<open>np.mean(self.rsort[:self.ypix.size])\<close>; a slice past the end stops at the end\<close>
  "ROI_mean_r_squared0 roi = fmean (map Some (take (length (ypix roi)) (rsort roi)))"

definition ROI_mean_r_squared_compact :: "ROI \<Rightarrow> error + f64" where
  \<comment> \<open>\<open>self.mean_r_squared / (1e-10 + self.mean_r_squared0)\<close>\<close>
  "ROI_mean_r_squared_compact roi =
     (case ROI_mean_r_squared roi of
        Inl e \<Rightarrow> Inl e
      | Inr m \<Rightarrow> Inr (fdiv m (fadd (Some (1 / 10 ^ 10)) (ROI_mean_r_squared0 roi))))"

definition ROI_median_pix :: "ROI \<Rightarrow> f64 \<times> f64" where
  "ROI_median_pix roi = (np_median (ypix roi), np_median (xpix roi))"

definition ROI_n_pixels :: "ROI \<Rightarrow> nat" where
  "ROI_n_pixels roi = length (xpix roi)"

definition ROI_radii :: "eigensolver \<Rightarrow> ROI \<Rightarrow> ROI \<times> (error + real \<times> real)" where
  \<comment> \<open>the fit works on \<open>self.lam\<close> itself: the first component is the ROI after the
      access, with the content the fit left in its weights\<close>
  "ROI_radii solver roi =
     (case (dx roi, dy roi) of
        (Some dx', Some dy') \<Rightarrow>
          (case calc_radii solver (real_of_int dy') (real_of_int dx')
                  (ypix roi) (xpix roi) (lam roi) of
             (lam1, r) \<Rightarrow> (roi\<lparr>lam := lam1\<rparr>, r))
      | _ \<Rightarrow> (roi, Inl TypeError))"

definition ROI_radius :: "eigensolver \<Rightarrow> ROI \<Rightarrow> ROI \<times> (error + real)" where
  \<comment> \<open>\<open>self.radii[0] * np.mean((self.dx, self.dy))\<close>: \<open>self.radii\<close> is evaluated first\<close>
  "ROI_radius solver roi =
     (case ROI_radii solver roi of
        (roi1, Inl e) \<Rightarrow> (roi1, Inl e)
      | (roi1, Inr r) \<Rightarrow>
          (case (dx roi1, dy roi1) of
             (Some dx', Some dy') \<Rightarrow>
               (roi1, Inr (fst r * ((real_of_int dx' + real_of_int dy') / 2)))
           | _ \<Rightarrow> (roi1, Inl TypeError)))"

definition ROI_aspect_ratio :: "eigensolver \<Rightarrow> ROI \<Rightarrow> ROI \<times> (error + f64)" where
  \<comment> \<open>\<open>ry, rx = self.radii\<close>, then \<open>aspect_ratio(ry=ry, rx=rx)\<close>\<close>
  "ROI_aspect_ratio solver roi =
     (case ROI_radii solver roi of
        (roi1, Inl e) \<Rightarrow> (roi1, Inl e)
      | (roi1, Inr r) \<Rightarrow> (roi1, Inr (aspect_ratio (fst r) (snd r) aspect_ratio_offset)))"

subsection \<open>The compactness measure as the specification words it\<close>

text \<open>
  The specification's own wording of the three quantities, to compare the properties of
  the ROI with: the mean Euclidean distance of the pixels from the per-axis median
  pixel; the mean of the \<open>n_pixels\<close> smallest entries of the reference table; and the
  quotient of the first by the second plus 1e-10.
\<close>

definition spec_euclidean_distance :: "f64 \<times> f64 \<Rightarrow> f64 \<times> f64 \<Rightarrow> f64" where
  "spec_euclidean_distance p q =
     fsqrt (fadd (fmul (fsub (fst p) (fst q)) (fsub (fst p) (fst q)))
                 (fmul (fsub (snd p) (snd q)) (fsub (snd p) (snd q))))"

definition spec_mean_r_squared :: "ROI \<Rightarrow> f64" where
  "spec_mean_r_squared roi =
     (let median_pixel = (np_median (ypix roi), np_median (xpix roi))
      in fmean (map (\<lambda>pixel. spec_euclidean_distance pixel median_pixel)
                    (zip (ypix roi) (xpix roi))))"

definition spec_mean_r_squared0 :: "ROI \<Rightarrow> f64" where
  "spec_mean_r_squared0 roi = fmean (map Some (take (ROI_n_pixels roi) (sort (rsort roi))))"

definition spec_mean_r_squared_compact :: "ROI \<Rightarrow> f64" where
  "spec_mean_r_squared_compact roi =
     fdiv (spec_mean_r_squared roi) (fadd (spec_mean_r_squared0 roi) (Some (1 / 10 ^ 10)))"

subsection \<open>The population normalizer\<close>

definition norm_by_average ::
  "f64 list \<Rightarrow> (f64 list \<Rightarrow> f64) option \<Rightarrow> real \<Rightarrow> nat option \<Rightarrow> f64 list" where
  \<comment> \<open>Modelled from the spec: \<open>norm_by_average\<close> of \<open>suite2p/detection/utils.py\<close> is not
      among the sources. The spec: compute the estimator (by default the median) over
      the first \<open>first_n\<close> values, or over all of them if \<open>first_n\<close> is absent, add
      \<open>offset\<close> (by default 0), divide every value by that denominator, and return the
      quotients in the same order.\<close>
  "norm_by_average values estimator offset first_n =
     (let est = (case estimator of None \<Rightarrow> np_median | Some f \<Rightarrow> f);
          head = (case first_n of None \<Rightarrow> values | Some n \<Rightarrow> take n values);
          denom = fadd (est head) (Some offset)
      in map (\<lambda>v. fdiv v denom) values)"

subsection \<open>The legacy batch adapter\<close>

text \<open>
  A record of the batch is a dictionary from field names to values: arrays, numbers,
  integers and lists of numbers. The adapter writes into the records it is given; the
  model returns the records as the call leaves them, or the exception that ends it.
\<close>

datatype val = VArr "f64 list" | VNum f64 | VInt int | VList "f64 list"

type_synonym stat = "string \<rightharpoonup> val"

definition stat_item :: "stat \<Rightarrow> string \<Rightarrow> error + val" where
  \<comment> \<open>the subscript \<open>stat[k]\<close>: KeyError without the key\<close>
  "stat_item st k = (case st k of None \<Rightarrow> Inl KeyError | Some v \<Rightarrow> Inr v)"

definition array_of :: "val \<Rightarrow> error + f64 list" where
  \<comment> \<open>\<open>v.shape\<close> is read of an array: AttributeError on any other value\<close>
  "array_of v = (case v of VArr a \<Rightarrow> Inr a | _ \<Rightarrow> Inl AttributeError)"

definition get_arr :: "stat \<Rightarrow> string \<Rightarrow> error + f64 list" where
  \<comment> \<open>\<open>stat[k]\<close> where an array is needed: KeyError without the key, AttributeError (no
      \<open>shape\<close>) on a value that is not an array\<close>
  "get_arr st k =
     (case st k of None \<Rightarrow> Inl KeyError | Some (VArr a) \<Rightarrow> Inr a | Some _ \<Rightarrow> Inl AttributeError)"

definition ROI_of_stat :: "int \<Rightarrow> int \<Rightarrow> stat \<Rightarrow> error + ROI" where
  \<comment> \<open>\<open>ROI(ypix=stat['ypix'], xpix=stat['xpix'], lam=stat['lam'], dx=dx, dy=dy)\<close>: the
      three subscripts are evaluated first, in this order; then \<open>__post_init__\<close> reads
      \<open>xpix.shape\<close> and \<open>ypix.shape\<close>, raises TypeError if they differ, and only then
      reads \<open>lam.shape\<close>\<close>
  "ROI_of_stat dy' dx' st =
     (case stat_item st ''ypix'' of Inl e \<Rightarrow> Inl e | Inr vy \<Rightarrow>
      case stat_item st ''xpix'' of Inl e \<Rightarrow> Inl e | Inr vx \<Rightarrow>
      case stat_item st ''lam'' of Inl e \<Rightarrow> Inl e | Inr vl \<Rightarrow>
      case array_of vx of Inl e \<Rightarrow> Inl e | Inr xp \<Rightarrow>
      case array_of vy of Inl e \<Rightarrow> Inl e | Inr yp \<Rightarrow>
        if length xp \<noteq> length yp then Inl TypeError
        else (case array_of vl of Inl e \<Rightarrow> Inl e | Inr lm \<Rightarrow>
                ROI_init yp xp lm (Some dx') (Some dy') None))"

definition get_num :: "stat \<Rightarrow> string \<Rightarrow> error + f64" where
  \<comment> \<open>\<open>stat[k]\<close> where a number is needed\<close>
  "get_num st k =
     (case st k of
        None \<Rightarrow> Inl KeyError
      | Some (VNum v) \<Rightarrow> Inr v
      | Some (VInt n) \<Rightarrow> Inr (Some (real_of_int n))
      | Some _ \<Rightarrow> Inl TypeError)"

definition roi_stats_record :: "eigensolver \<Rightarrow> int \<Rightarrow> int \<Rightarrow> stat \<Rightarrow> error + stat" where
  \<comment> \<open>the body of the first loop of \<open>roi_stats\<close>. The ROI holds the record's own array
      \<open>stat['lam']\<close>, so what the fit writes into the weights shows in the record.\<close>
  "roi_stats_record solver dy' dx' st =
     (case ROI_of_stat dy' dx' st of Inl e \<Rightarrow> Inl e | Inr roi \<Rightarrow>
      case ROI_mean_r_squared roi of Inl e \<Rightarrow> Inl e | Inr mrs \<Rightarrow>
      case ROI_mean_r_squared_compact roi of Inl e \<Rightarrow> Inl e | Inr compact' \<Rightarrow>
        (let st1 = st(''mrs'' \<mapsto> VNum mrs,
                      ''mrs0'' \<mapsto> VNum (ROI_mean_r_squared0 roi),
                      ''compact'' \<mapsto> VNum compact',
                      ''med'' \<mapsto> VList [fst (ROI_median_pix roi), snd (ROI_median_pix roi)],
                      ''npix'' \<mapsto> VInt (int (ROI_n_pixels roi)))
         in if st1 ''radius'' = None then
              (case ROI_radius solver roi of
                 (roi1, Inl e) \<Rightarrow> Inl e
               | (roi1, Inr r) \<Rightarrow>
                   (case ROI_aspect_ratio solver roi1 of
                      (roi2, Inl e) \<Rightarrow> Inl e
                    | (roi2, Inr a) \<Rightarrow>
                        Inr (st1(''lam'' \<mapsto> VArr (lam roi2),
                                 ''radius'' \<mapsto> VNum (Some r),
                                 ''aspect_ratio'' \<mapsto> VNum a))))
            else Inr st1))"

fun roi_stats_records :: "eigensolver \<Rightarrow> int \<Rightarrow> int \<Rightarrow> stat list \<Rightarrow> error + stat list" where
  \<comment> \<open>\<open>for stat in stats: ...\<close>; an exception ends the call\<close>
  "roi_stats_records solver dy' dx' [] = Inr []"
| "roi_stats_records solver dy' dx' (st # sts) =
     (case roi_stats_record solver dy' dx' st of
        Inl e \<Rightarrow> Inl e
      | Inr st1 \<Rightarrow>
          (case roi_stats_records solver dy' dx' sts of
             Inl e \<Rightarrow> Inl e
           | Inr sts1 \<Rightarrow> Inr (st1 # sts1)))"

fun get_nums :: "stat list \<Rightarrow> string \<Rightarrow> error + f64 list" where
  \<comment> \<open>\<open>[stat[k] for stat in stats]\<close>\<close>
  "get_nums [] k = Inr []"
| "get_nums (st # sts) k =
     (case get_num st k of
        Inl e \<Rightarrow> Inl e
      | Inr v \<Rightarrow> (case get_nums sts k of Inl e \<Rightarrow> Inl e | Inr vs \<Rightarrow> Inr (v # vs)))"

definition write_normed :: "stat \<Rightarrow> f64 \<Rightarrow> f64 \<Rightarrow> stat" where
  \<comment> \<open>the body of the second loop\<close>
  "write_normed st mrs_normed npix_normed =
     st(''mrs'' \<mapsto> VNum mrs_normed,
        ''npix_norm'' \<mapsto> VNum npix_normed,
        ''footprint'' \<mapsto> (case st ''footprint'' of None \<Rightarrow> VInt 0 | Some v \<Rightarrow> v))"

fun write_normeds :: "stat list \<Rightarrow> f64 list \<Rightarrow> f64 list \<Rightarrow> stat list" where
  \<comment> \<open>\<open>for stat, mrs_normed, npix_normed in zip(stats, mrs_normeds, npix_normeds)\<close>: the
      loop ends with the shortest of the three, and \<open>stats\<close> is returned whole\<close>
  "write_normeds (st # sts) (m # ms) (n # ns) = write_normed st m n # write_normeds sts ms ns"
| "write_normeds sts ms ns = sts"

definition roi_stats :: "eigensolver \<Rightarrow> int \<Rightarrow> int \<Rightarrow> stat list \<Rightarrow> error + stat list" where
  \<comment> \<open>the deprecation warning that opens the function is not modelled\<close>
  "roi_stats solver dy' dx' stats =
     (case roi_stats_records solver dy' dx' stats of Inl e \<Rightarrow> Inl e | Inr stats1 \<Rightarrow>
      case get_nums stats1 ''mrs'' of Inl e \<Rightarrow> Inl e | Inr mrs \<Rightarrow>
      case get_nums stats1 ''npix'' of Inl e \<Rightarrow> Inl e | Inr npix \<Rightarrow>
        (let mrs_normeds = norm_by_average mrs (Some np_nanmedian) (1 / 10 ^ 10) (Some 100);
             npix_normeds = norm_by_average npix None 0 (Some 100)
         in Inr (write_normeds stats1 mrs_normeds npix_normeds)))"

definition two_rois :: "stat list" where
  \<comment> \<open>a batch of two records with unit weights: two pixels in a row, and the 2x2 square\<close>
  "two_rois =
     [[''ypix'' \<mapsto> VArr [Some 0, Some 0], ''xpix'' \<mapsto> VArr [Some 0, Some 1],
       ''lam'' \<mapsto> VArr [Some 1, Some 1]],
      [''ypix'' \<mapsto> VArr [Some 0, Some 0, Some 1, Some 1],
       ''xpix'' \<mapsto> VArr [Some 0, Some 1, Some 0, Some 1],
       ''lam'' \<mapsto> VArr [Some 1, Some 1, Some 1, Some 1]]]"

section \<open>Properties\<close>

subsection \<open>Arithmetic on numbers that may be non-finite\<close>

lemma fdiv_zero [simp]: "fdiv w (Some 0) = None"
  by (simp add: fdiv_def split: option.split)

lemma fmul_None [simp]: "fmul None b = None" "fmul a None = None"
  by (simp_all add: fmul_def split: option.split)

lemma fsub_None [simp]: "fsub None b = None" "fsub a None = None"
  by (simp_all add: fsub_def split: option.split)

lemma fadd_None [simp]: "fadd None b = None" "fadd a None = None"
  by (simp_all add: fadd_def split: option.split)

lemma fdiv_None [simp]: "fdiv None b = None" "fdiv a None = None"
  by (simp_all add: fdiv_def split: option.split)

lemma fsqrt_None [simp]: "fsqrt None = None"
  by (simp add: fsqrt_def)

lemma fadd_Some [simp]: "fadd (Some u) (Some v) = Some (u + v)"
  by (simp add: fadd_def)

lemma fsub_Some [simp]: "fsub (Some u) (Some v) = Some (u - v)"
  by (simp add: fsub_def)

lemma fmul_Some [simp]: "fmul (Some u) (Some v) = Some (u * v)"
  by (simp add: fmul_def)

lemma fdiv_Some: "fdiv (Some u) (Some v) = (if v = 0 then None else Some (u / v))"
  by (simp add: fdiv_def)

lemma fsum_Nil [simp]: "fsum [] = Some 0"
  by (simp add: fsum_def)

lemma fsum_Cons [simp]: "fsum (v # vs) = fadd v (fsum vs)"
  by (simp add: fsum_def)

lemma fsum_None: "None \<in> set vs \<Longrightarrow> fsum vs = None"
  by (induction vs) auto

lemma fsum_map_Some: "fsum (map Some rs) = Some (sum_list rs)"
  by (induction rs) auto

lemma fsum_Some_iff: "fsum vs = Some s \<longleftrightarrow> (\<exists>rs. vs = map Some rs \<and> s = sum_list rs)"
proof (induction vs arbitrary: s)
  case Nil
  then show ?case by auto
next
  case (Cons v vs)
  show ?case
  proof (cases v)
    case None
    then show ?thesis by auto
  next
    case (Some r)
    show ?thesis
    proof (cases "fsum vs")
      case None
      have "\<not> (\<exists>rs. vs = map Some rs)" using None fsum_map_Some by force
      then show ?thesis using None Some by (auto simp: map_eq_Cons_conv)
    next
      case (Some t)
      then obtain ts where ts: "vs = map Some ts" "t = sum_list ts" using Cons.IH by blast
      have "Some r # map Some ts = map Some (r # ts)" by simp
      then show ?thesis using \<open>v = Some r\<close> ts
        by (auto simp: fsum_map_Some simp del: list.map)
    qed
  qed
qed

subsection \<open>The radial reference table\<close>

lemma length_distance_kernel_flat:
  "length (concat (distance_kernel R)) = length [- R .. R] * length [- R .. R]"
  by (simp add: distance_kernel_def Let_def length_concat comp_def sum_list_triv)

lemma length_radial_reference:
  assumes "0 \<le> R"
  shows "length (radial_reference R) = nat ((2 * R + 1)\<^sup>2)"
proof -
  have "length (radial_reference R) = nat (2 * R + 1) * nat (2 * R + 1)"
    using assms by (simp add: radial_reference_def length_distance_kernel_flat)
  also have "\<dots> = nat ((2 * R + 1) * (2 * R + 1))"
    using assms by (simp add: nat_mult_distrib)
  finally show ?thesis by (simp add: power2_eq_square)
qed

lemma set_radial_reference:
  "set (radial_reference R) =
     {sqrt ((real_of_int x)\<^sup>2 + (real_of_int y)\<^sup>2) | x y. x \<in> {- R .. R} \<and> y \<in> {- R .. R}}"
  apply (auto simp: radial_reference_def distance_kernel_def Let_def)
  apply blast
  done

lemma radial_reference_nonneg: "v \<in> set (radial_reference R) \<Longrightarrow> 0 \<le> v"
  by (auto simp: set_radial_reference)

lemma radial_reference_le_corner:
  assumes "v \<in> set (radial_reference R)"
  shows "v \<le> real_of_int R * sqrt 2"
proof -
  from assms obtain x y where v: "v = sqrt ((real_of_int x)\<^sup>2 + (real_of_int y)\<^sup>2)"
    and x: "- R \<le> x" "x \<le> R" and y: "- R \<le> y" "y \<le> R"
    by (auto simp: set_radial_reference)
  have R0: "0 \<le> R" using x by linarith
  have "\<bar>real_of_int x\<bar> \<le> real_of_int R" using x by linarith
  then have x2: "(real_of_int x)\<^sup>2 \<le> (real_of_int R)\<^sup>2"
    by (metis abs_le_square_iff abs_of_nonneg R0 of_int_0_le_iff)
  have "\<bar>real_of_int y\<bar> \<le> real_of_int R" using y by linarith
  then have y2: "(real_of_int y)\<^sup>2 \<le> (real_of_int R)\<^sup>2"
    by (metis abs_le_square_iff abs_of_nonneg R0 of_int_0_le_iff)
  have "v \<le> sqrt (2 * (real_of_int R)\<^sup>2)"
    unfolding v using x2 y2 by (intro real_sqrt_le_mono) linarith
  also have "\<dots> = real_of_int R * sqrt 2"
    using R0 by (simp add: real_sqrt_mult)
  finally show ?thesis .
qed

lemma corner_in_radial_reference:
  "0 \<le> R \<Longrightarrow> real_of_int R * sqrt 2 \<in> set (radial_reference R)"
proof -
  assume R0: "0 \<le> R"
  have "sqrt ((real_of_int R)\<^sup>2 + (real_of_int R)\<^sup>2) = real_of_int R * sqrt 2"
    using R0 by (simp add: real_sqrt_mult flip: mult_2)
  moreover have "sqrt ((real_of_int R)\<^sup>2 + (real_of_int R)\<^sup>2) \<in> set (radial_reference R)"
    unfolding set_radial_reference using R0
    by (intro CollectI exI[of _ R]) simp
  ultimately show ?thesis by simp
qed

lemma centre_in_radial_reference:
  "0 \<le> R \<Longrightarrow> 0 \<in> set (radial_reference R)"
proof -
  assume R0: "0 \<le> R"
  have "sqrt ((real_of_int 0)\<^sup>2 + (real_of_int 0)\<^sup>2) \<in> set (radial_reference R)"
    unfolding set_radial_reference using R0 by (intro CollectI exI[of _ 0]) simp
  then show ?thesis by simp
qed

lemma sorted_hd_Min: "sorted xs \<Longrightarrow> xs \<noteq> [] \<Longrightarrow> hd xs = Min (set xs)"
  for xs :: "'a::linorder list"
  by (cases xs) (auto intro!: Min_eqI[symmetric])

lemma sorted_last_Max: "sorted xs \<Longrightarrow> xs \<noteq> [] \<Longrightarrow> last xs = Max (set xs)"
  for xs :: "'a::linorder list"
proof -
  assume s: "sorted xs" and ne: "xs \<noteq> []"
  have "x \<le> last xs" if "x \<in> set xs" for x
    using s that by (induction xs) auto
  then show ?thesis
    using ne by (intro Max_eqI[symmetric]) auto
qed

text \<open>
  C5. For every positive integer radius R the radial reference table (the sorted,
  flattened distance kernel) has exactly (2R+1)^2 entries, is sorted non-decreasing,
  its minimum entry (which is its first) is 0, and its maximum entry (which is its
  last) is R * sqrt 2.
\<close>

theorem radial_reference_shape:
  assumes "0 < R"
  shows "length (radial_reference R) = nat ((2 * R + 1)\<^sup>2)
       \<and> sorted (radial_reference R)
       \<and> Min (set (radial_reference R)) = 0
       \<and> hd (radial_reference R) = 0
       \<and> Max (set (radial_reference R)) = real_of_int R * sqrt 2
       \<and> last (radial_reference R) = real_of_int R * sqrt 2"
proof -
  have len: "length (radial_reference R) = nat ((2 * R + 1)\<^sup>2)"
    using assms by (intro length_radial_reference) simp
  have srt: "sorted (radial_reference R)"
    by (simp add: radial_reference_def)
  have ne: "radial_reference R \<noteq> []"
    using centre_in_radial_reference[of R] assms by auto
  have mn: "Min (set (radial_reference R)) = 0"
    using assms by (intro Min_eqI) (auto simp: radial_reference_nonneg centre_in_radial_reference)
  have mx: "Max (set (radial_reference R)) = real_of_int R * sqrt 2"
    using assms by (intro Max_eqI) (auto simp: radial_reference_le_corner corner_in_radial_reference)
  show ?thesis
    using len srt mn mx sorted_hd_Min[OF srt ne] sorted_last_Max[OF srt ne] by simp
qed

theorem radial_reference_shape_witness:
  "length (radial_reference 30) = 3721
   \<and> sorted (radial_reference 30)
   \<and> Min (set (radial_reference 30)) = 0
   \<and> hd (radial_reference 30) = 0
   \<and> Max (set (radial_reference 30)) = 30 * sqrt 2
   \<and> last (radial_reference 30) = 30 * sqrt 2"
  using radial_reference_shape[of 30] by simp

subsection \<open>The aspect ratio\<close>

lemma aspect_ratio_value:
  "ry + rx + offset \<noteq> 0 \<Longrightarrow> aspect_ratio ry rx offset = Some (2 * ry / (ry + rx + offset))"
  by (simp add: aspect_ratio_def fdiv_def)

text \<open>
  C6 (as stated, refuted). For equal radii the default offset keeps the aspect ratio away
  from 1: at r = 1 it is 200/201 and at r = 1/200 it is 1/2.
\<close>

theorem aspect_ratio_circle_counterexample:
  "aspect_ratio 1 1 aspect_ratio_offset = Some (200 / 201)
   \<and> aspect_ratio (1 / 200) (1 / 200) aspect_ratio_offset = Some (1 / 2)"
  by (simp add: aspect_ratio_def fdiv_def aspect_ratio_offset_def)

text \<open>
  C6 (amended). For every r > 0, aspect_ratio(r, r) with the default offset 0.01 is
  2r / (2r + 0.01): strictly between 0 and 1, below 1 by exactly 0.01 / (2r + 0.01).
  It is exactly 1 when the offset is 0, and for no other offset.
\<close>

theorem aspect_ratio_circle:
  assumes "0 < r"
  shows "(\<exists>a. aspect_ratio r r aspect_ratio_offset = Some a
           \<and> a = 2 * r / (2 * r + 1 / 100)
           \<and> 0 < a \<and> a < 1
           \<and> 1 - a = (1 / 100) / (2 * r + 1 / 100))
       \<and> aspect_ratio r r 0 = Some 1
       \<and> (\<forall>offset. aspect_ratio r r offset = Some 1 \<longleftrightarrow> offset = 0)"
proof -
  let ?a = "2 * r / (2 * r + 1 / 100)"
  have v: "aspect_ratio r r aspect_ratio_offset = Some ?a"
    using assms by (simp add: aspect_ratio_def fdiv_def aspect_ratio_offset_def)
  have pos: "0 < ?a" using assms by simp
  have lt: "?a < 1" using assms by (simp add: divide_simps)
  have d: "1 - ?a = (1 / 100) / (2 * r + 1 / 100)"
    using assms by (simp add: divide_simps)
  have z: "aspect_ratio r r 0 = Some 1"
    using assms by (simp add: aspect_ratio_def fdiv_def)
  have only: "aspect_ratio r r offset = Some 1 \<longleftrightarrow> offset = 0" for offset
  proof (cases "r + r + offset = 0")
    case True
    then have "aspect_ratio r r offset = None"
      by (simp add: aspect_ratio_def fdiv_def)
    moreover have "offset \<noteq> 0" using True assms by auto
    ultimately show ?thesis by simp
  next
    case False
    then have "aspect_ratio r r offset = Some (2 * r / (r + r + offset))"
      by (rule aspect_ratio_value)
    moreover have "2 * r / (r + r + offset) = 1 \<longleftrightarrow> offset = 0"
      using False by (simp add: divide_eq_1_iff)
    ultimately show ?thesis by simp
  qed
  show ?thesis
    using v pos lt d z only by blast
qed

theorem aspect_ratio_circle_witness:
  "(\<exists>a. aspect_ratio 5 5 aspect_ratio_offset = Some a
        \<and> a = 2 * 5 / (2 * 5 + 1 / 100)
        \<and> 0 < a \<and> a < 1
        \<and> 1 - a = (1 / 100) / (2 * 5 + 1 / 100))
   \<and> aspect_ratio 5 5 0 = Some 1
   \<and> (\<forall>offset. aspect_ratio 5 5 offset = Some 1 \<longleftrightarrow> offset = 0)"
  using aspect_ratio_circle[of 5] by simp

text \<open>
  C7 (as stated, refuted). At ry = 0 the aspect ratio is 0 whatever rx is, so it is not
  strictly decreasing in rx there.
\<close>

theorem aspect_ratio_strict_counterexample:
  "aspect_ratio 0 0 aspect_ratio_offset = Some 0
   \<and> aspect_ratio 0 1 aspect_ratio_offset = Some 0"
  by (simp add: aspect_ratio_def fdiv_def aspect_ratio_offset_def)

text \<open>
  C7 (amended). For all non-negative rx and ry, aspect_ratio(ry, rx) is strictly
  increasing in ry for fixed rx; it is strictly decreasing in rx for fixed ry > 0, and
  constantly 0 in rx for ry = 0.
\<close>

theorem aspect_ratio_monotone:
  assumes "0 \<le> rx" and "0 \<le> ry"
  shows "(ry < ry' \<longrightarrow>
            (\<exists>a b. aspect_ratio ry rx aspect_ratio_offset = Some a
                 \<and> aspect_ratio ry' rx aspect_ratio_offset = Some b \<and> a < b))
       \<and> (0 < ry \<and> rx < rx' \<longrightarrow>
            (\<exists>a b. aspect_ratio ry rx aspect_ratio_offset = Some a
                 \<and> aspect_ratio ry rx' aspect_ratio_offset = Some b \<and> b < a))
       \<and> (ry = 0 \<and> rx < rx' \<longrightarrow>
            aspect_ratio ry rx aspect_ratio_offset = Some 0
            \<and> aspect_ratio ry rx' aspect_ratio_offset = Some 0)"
proof (intro conjI impI)
  assume lt: "ry < ry'"
  have a: "aspect_ratio ry rx aspect_ratio_offset = Some (2 * ry / (ry + rx + 1 / 100))"
    using assms by (simp add: aspect_ratio_value aspect_ratio_offset_def)
  have b: "aspect_ratio ry' rx aspect_ratio_offset = Some (2 * ry' / (ry' + rx + 1 / 100))"
    using assms lt by (simp add: aspect_ratio_value aspect_ratio_offset_def)
  have "ry * (ry' + rx + 1 / 100) < ry' * (ry + rx + 1 / 100)"
  proof -
    have "ry * (rx + 1 / 100) < ry' * (rx + 1 / 100)"
      using assms lt by (intro mult_strict_right_mono) auto
    then show ?thesis by (simp add: algebra_simps)
  qed
  then have "2 * ry / (ry + rx + 1 / 100) < 2 * ry' / (ry' + rx + 1 / 100)"
    using assms lt by (simp add: divide_simps)
  with a b show "\<exists>a b. aspect_ratio ry rx aspect_ratio_offset = Some a
       \<and> aspect_ratio ry' rx aspect_ratio_offset = Some b \<and> a < b"
    by blast
next
  assume h: "0 < ry \<and> rx < rx'"
  have a: "aspect_ratio ry rx aspect_ratio_offset = Some (2 * ry / (ry + rx + 1 / 100))"
    using assms by (simp add: aspect_ratio_value aspect_ratio_offset_def)
  have b: "aspect_ratio ry rx' aspect_ratio_offset = Some (2 * ry / (ry + rx' + 1 / 100))"
    using assms h by (simp add: aspect_ratio_value aspect_ratio_offset_def)
  have "ry * (ry + rx + 1 / 100) < ry * (ry + rx' + 1 / 100)"
    using h by (intro mult_strict_left_mono) auto
  then have "2 * ry / (ry + rx' + 1 / 100) < 2 * ry / (ry + rx + 1 / 100)"
    using assms h by (simp add: divide_simps)
  with a b show "\<exists>a b. aspect_ratio ry rx aspect_ratio_offset = Some a
       \<and> aspect_ratio ry rx' aspect_ratio_offset = Some b \<and> b < a"
    by blast
next
  assume h: "ry = 0 \<and> rx < rx'"
  then show "aspect_ratio ry rx aspect_ratio_offset = Some 0"
    using assms by (simp add: aspect_ratio_value aspect_ratio_offset_def)
next
  assume h: "ry = 0 \<and> rx < rx'"
  then show "aspect_ratio ry rx' aspect_ratio_offset = Some 0"
    using assms by (simp add: aspect_ratio_value aspect_ratio_offset_def)
qed

theorem aspect_ratio_monotone_witness:
  "(\<exists>a b. aspect_ratio 1 1 aspect_ratio_offset = Some a
         \<and> aspect_ratio 2 1 aspect_ratio_offset = Some b \<and> a < b)
   \<and> (\<exists>a b. aspect_ratio 1 1 aspect_ratio_offset = Some a
         \<and> aspect_ratio 1 2 aspect_ratio_offset = Some b \<and> b < a)
   \<and> aspect_ratio 0 1 aspect_ratio_offset = Some 0
   \<and> aspect_ratio 0 2 aspect_ratio_offset = Some 0"
  using aspect_ratio_monotone[of 1 1 2 2] aspect_ratio_monotone[of 1 0 2 2] by simp

subsection \<open>The ellipse fit\<close>

text \<open>
  The closed-form solver does return eigenpairs of a symmetric matrix: each column of
  its second component is mapped by the matrix to its multiple by the eigenvalue.
\<close>

lemma eig_sym2_eigenpairs:
  assumes "eig_sym2 ((a, b), (b, d)) = ((l1, l2), ((e00, e01), (e10, e11)))"
  shows "a * e00 + b * e10 = l1 * e00 \<and> b * e00 + d * e10 = l1 * e10
       \<and> a * e01 + b * e11 = l2 * e01 \<and> b * e01 + d * e11 = l2 * e11"
proof (cases "b = 0")
  case True
  with assms show ?thesis by (simp add: eig_sym2_def Let_def)
next
  case False
  define h where "h = sqrt (((a - d) / 2)\<^sup>2 + b\<^sup>2)"
  have h2: "h * h = ((a - d) / 2)\<^sup>2 + b\<^sup>2"
    unfolding h_def by (simp add: power2_eq_square[symmetric])
  define k1 where "k1 = (a + d) / 2 + h"
  define k2 where "k2 = (a + d) / 2 - h"
  define n1 where "n1 = sqrt (b\<^sup>2 + (k1 - a)\<^sup>2)"
  define n2 where "n2 = sqrt (b\<^sup>2 + (k2 - a)\<^sup>2)"
  have v: "l1 = k1" "l2 = k2" "e00 = b / n1" "e01 = b / n2"
      "e10 = (k1 - a) / n1" "e11 = (k2 - a) / n2"
    using assms False
    by (auto simp: eig_sym2_def Let_def h_def k1_def k2_def n1_def n2_def)
  have q1: "b * b + d * (k1 - a) = k1 * (k1 - a)"
    using h2 unfolding k1_def by (simp add: power2_eq_square field_simps)
  have q2: "b * b + d * (k2 - a) = k2 * (k2 - a)"
    using h2 unfolding k2_def by (simp add: power2_eq_square field_simps)
  have "a * (b / n1) + b * ((k1 - a) / n1) = k1 * (b / n1)"
    by (simp add: algebra_simps flip: add_divide_distrib)
  moreover have "b * (b / n1) + d * ((k1 - a) / n1) = k1 * ((k1 - a) / n1)"
    using q1 by (metis add_divide_distrib times_divide_eq_right)
  moreover have "a * (b / n2) + b * ((k2 - a) / n2) = k2 * (b / n2)"
    by (simp add: algebra_simps flip: add_divide_distrib)
  moreover have "b * (b / n2) + d * ((k2 - a) / n2) = k2 * ((k2 - a) / n2)"
    using q2 by (metis add_divide_distrib times_divide_eq_right)
  ultimately show ?thesis unfolding v by simp
qed

lemma bcast_same: "length a = length b \<Longrightarrow> bcast f a b = Inr (map2 f a b)"
  by (simp add: bcast_def)

lemma normalize_zero_sum:
  "fsum ws = Some 0 \<Longrightarrow> map (\<lambda>w. fdiv w (fsum ws)) ws = replicate (length ws) None"
  by (simp add: map_replicate_const)

lemma map2_fmul_None_left:
  "map2 fmul (replicate n None) vs = replicate (min n (length vs)) None"
  by (simp add: zip_replicate1 map_replicate_const comp_def min.commute)

lemma map2_fmul_None_right:
  "map2 fmul vs (replicate n None) = replicate (min (length vs) n) None"
  by (simp add: zip_replicate2 map_replicate_const comp_def)

lemma dot_None: "0 < n \<Longrightarrow> dot (replicate n None) (replicate n None) = None"
  by (cases n) (simp_all add: dot_def)

lemma fsum_replicate_None: "0 < n \<Longrightarrow> fsum (replicate n None) = None"
  by (cases n) simp_all

lemma fit_normalized_nonfinite:
  assumes "length y = n" and "length x = n" and "0 < n"
  shows "fit_normalized solver y x (replicate n None) thres npts = Inl LinAlgError"
  using assms
  by (simp add: fit_normalized_def bcast_same map2_fmul_None_left map2_fmul_None_right
      fsum_replicate_None map_replicate_const dot_None np_linalg_eig_def Let_def)

text \<open>
  C1 (the code departs from it). \<open>fitMVGaus\<close> reads \<open>y\<close> and \<open>x\<close> only, but it divides
  \<open>lam\<close> in place: called on the float arrays y = [0, 1], x = [0, 0], lam = [1, 3] it
  returns a fit and leaves lam = [0.25, 0.75] in the caller's array.
\<close>

theorem fitMVGaus_overwrites_lam:
  "fst (fitMVGaus eig_sym2 [Some 0, Some 1] [Some 0, Some 0] [Some 1, Some 3] (5 / 2) 100)
     = [Some (1 / 4), Some (3 / 4)]
   \<and> \<not> isl (snd (fitMVGaus eig_sym2 [Some 0, Some 1] [Some 0, Some 0] [Some 1, Some 3]
                   (5 / 2) 100))"
  by (simp add: fitMVGaus_def Let_def fdiv_Some fit_normalized_def bcast_def dot_def fsqrt_def
      np_linalg_eig_def eig_sym2_def split: prod.split)

text \<open>
  C2 (as stated, refuted). The weights of the empty input sum to zero, and \<open>fitMVGaus\<close>
  raises nothing on it: it returns the fit with mean, covariance, radii and boundary
  points all zero.
\<close>

theorem fitMVGaus_empty_counterexample:
  "fsum [] = Some 0
   \<and> snd (fitMVGaus eig_sym2 [] [] [] (5 / 2) 100) =
       Inr \<lparr>mu = (Some 0, Some 0), cov = ((Some 0, Some 0), (Some 0, Some 0)), radii = (0, 0),
            ellipse = replicate 100 (Some 0, Some 0)\<rparr>"
  by (simp add: fitMVGaus_def Let_def fit_normalized_def bcast_def dot_def
      np_linalg_eig_def eig_sym2_def linspace_def map_replicate_const comp_def)

text \<open>
  C2 (amended). For every input with at least one pixel (\<open>y\<close>, \<open>x\<close> and \<open>lam\<close> of one
  non-zero length) whose weights sum to zero, \<open>fitMVGaus\<close> ends with an explicit error and
  returns no result: the division leaves every weight non-finite, so does the covariance
  matrix, and \<open>np.linalg.eig\<close> raises LinAlgError on it. The weights stay overwritten.
\<close>

theorem fitMVGaus_zero_sum:
  assumes "length y = length ws" and "length x = length ws" and "ws \<noteq> []"
    and "fsum ws = Some 0"
  shows "fitMVGaus solver y x ws thres npts = (replicate (length ws) None, Inl LinAlgError)"
proof -
  have n: "map (\<lambda>w. fdiv w (fsum ws)) ws = replicate (length ws) None"
    using assms(4) by (rule normalize_zero_sum)
  have "fit_normalized solver y x (replicate (length ws) None) thres npts = Inl LinAlgError"
    using assms(1-3) by (intro fit_normalized_nonfinite) auto
  then show ?thesis
    unfolding fitMVGaus_def Let_def n by simp
qed

theorem fitMVGaus_zero_sum_witness:
  "fitMVGaus eig_sym2 [Some 0, Some 1] [Some 0, Some 0] [Some 1, Some (- 1)] (5 / 2) 100
     = ([None, None], Inl LinAlgError)"
  using fitMVGaus_zero_sum[of "[Some 0, Some 1]" "[Some 1, Some (- 1)]" "[Some 0, Some 0]"
      eig_sym2 "5 / 2" 100]
  by (simp add: numeral_2_eq_2)

lemma normalize_scale:
  assumes "c \<noteq> 0"
  shows "map (\<lambda>w. fdiv w (fsum (map (fmul (Some c)) ws))) (map (fmul (Some c)) ws)
       = map (\<lambda>w. fdiv w (fsum ws)) ws"
proof (cases "fsum ws")
  case None
  then have "\<not> (\<exists>rs. ws = map Some rs)" using fsum_map_Some by force
  then have "None \<in> set ws"
    by (metis ex_map_conv not_None_eq)
  then have "None \<in> set (map (fmul (Some c)) ws)" by force
  then have "fsum (map (fmul (Some c)) ws) = None" by (rule fsum_None)
  with None show ?thesis by simp
next
  case (Some s)
  then obtain rs where rs: "ws = map Some rs" "s = sum_list rs"
    by (auto simp: fsum_Some_iff)
  have sc: "map (fmul (Some c)) ws = map Some (map ((*) c) rs)"
    by (simp add: rs)
  have t: "fsum (map (fmul (Some c)) ws) = Some (c * sum_list rs)"
    unfolding sc fsum_map_Some by (simp add: sum_list_const_mult)
  have u: "fsum ws = Some (sum_list rs)"
    by (simp add: rs fsum_map_Some)
  show ?thesis
    unfolding t u using assms by (simp add: rs fdiv_Some)
qed

lemma fitMVGaus_scale:
  "c \<noteq> 0 \<Longrightarrow> fitMVGaus solver y x (map (fmul (Some c)) ws) thres npts
     = fitMVGaus solver y x ws thres npts"
  by (simp add: fitMVGaus_def Let_def normalize_scale del: map_map)

lemma map2_fmul_Some:
  "map2 fmul (map Some a) (map Some b) = map Some (map2 (*) a b)"
  by (auto simp: zip_map_map)

lemma map_fsub_Some: "map (\<lambda>v. fsub v (Some m)) (map Some a) = map Some (map (\<lambda>v. v - m) a)"
  by simp

lemma map_fsqrt_Some:
  "\<forall>v\<in>set a. 0 \<le> v \<Longrightarrow> map fsqrt (map Some a) = map Some (map sqrt a)"
  by (auto simp: fsqrt_def)

lemma dot_Some: "dot (map Some a) (map Some b) = Some (sum_list (map2 (*) a b))"
  by (simp add: dot_def map2_fmul_Some fsum_map_Some del: map_map)

lemma sum_list_pos_if:
  fixes rs :: "real list"
  assumes "\<forall>w\<in>set rs. 0 \<le> w" and "\<exists>w\<in>set rs. w \<noteq> 0"
  shows "0 < sum_list rs"
proof -
  from assms obtain w where w: "w \<in> set rs" "0 < w" by force
  have "w \<le> sum_list rs"
    using assms(1) w(1) by (simp add: member_le_sum_list)
  with w show ?thesis by linarith
qed

lemma fit_normalized_finite:
  assumes "length ys = length qs" and "length xs = length qs" and "\<forall>v\<in>set qs. 0 \<le> v"
  shows "\<not> isl (fit_normalized solver (map Some ys) (map Some xs) (map Some qs) thres npts)"
  using assms
  by (simp add: fit_normalized_def bcast_same map2_fmul_Some fsum_map_Some map_fsqrt_Some
      map_fsub_Some dot_Some np_linalg_eig_def Let_def split: prod.split del: map_map)

lemma fitMVGaus_returns:
  assumes "length ys = length rs" and "length xs = length rs"
    and "\<forall>w\<in>set rs. 0 \<le> w" and "\<exists>w\<in>set rs. w \<noteq> 0"
  shows "\<not> isl (snd (fitMVGaus solver (map Some ys) (map Some xs) (map Some rs) thres npts))"
proof -
  have pos: "0 < sum_list rs" using assms(3,4) by (rule sum_list_pos_if)
  have n: "map (\<lambda>w. fdiv w (fsum (map Some rs))) (map Some rs)
             = map Some (map (\<lambda>w. w / sum_list rs) rs)"
    using pos by (simp add: fsum_map_Some fdiv_Some)
  have nn: "\<forall>v\<in>set (map (\<lambda>w. w / sum_list rs) rs). 0 \<le> v"
    using assms(3) pos by auto
  show ?thesis
    unfolding fitMVGaus_def Let_def n snd_conv
    using assms(1,2) nn by (intro fit_normalized_finite) auto
qed

text \<open>
  Lemma \<open>fitMVGaus_scale\<close> is a fact of exact arithmetic: a common non-zero factor of
  the weights cancels in the normalization, and \<open>fitMVGaus_returns\<close> shows that the fit
  returns on the fitter's preconditions. Neither says that the float64 outputs of the
  code coincide under rescaling: there the quotients of the scaled weights round
  differently, the eigensolver may then return the eigenpairs in another order, and a
  large factor makes the sum of the weights overflow.
\<close>

subsection \<open>The ROI\<close>

lemma ROI_init_Inr:
  "ROI_init yp xp lm dx' dy' rs = Inr roi \<Longrightarrow>
     length yp = length xp \<and> length lm = length xp \<and> ypix roi = yp \<and> xpix roi = xp
     \<and> lam roi = lm \<and> dx roi = dx' \<and> dy roi = dy'
     \<and> rsort roi = (case rs of None \<Rightarrow> rsort_default | Some t \<Rightarrow> t)"
  by (auto simp: ROI_init_def split: if_splits)

lemma fadd_commute: "fadd a b = fadd b a"
  by (simp add: fadd_def split: option.split)

lemma sorted_rsort_default: "sorted rsort_default"
  by (simp add: rsort_default_def radial_reference_def)

lemma ROI_mean_r_squared_spec:
  "length (ypix roi) = length (xpix roi) \<Longrightarrow>
     ROI_mean_r_squared roi = Inr (spec_mean_r_squared roi)"
  by (simp add: ROI_mean_r_squared_def mean_r_squared_def spec_mean_r_squared_def Let_def
      spec_euclidean_distance_def zip_map_map case_prod_unfold comp_def)

lemma ROI_mean_r_squared0_spec:
  "length (ypix roi) = length (xpix roi) \<Longrightarrow> sorted (rsort roi) \<Longrightarrow>
     ROI_mean_r_squared0 roi = spec_mean_r_squared0 roi"
  by (simp add: ROI_mean_r_squared0_def spec_mean_r_squared0_def ROI_n_pixels_def
      sorted_sort_id)

text \<open>
  C4. For every ROI (whose reference table is sorted, as the radial reference table is),
  \<open>mean_r_squared_compact\<close> is \<open>mean_r_squared\<close> divided by \<open>mean_r_squared0 + 1e-10\<close>,
  where \<open>mean_r_squared\<close> is the mean Euclidean distance of the pixels from the per-axis
  median pixel and \<open>mean_r_squared0\<close> the mean of the \<open>n_pixels\<close> smallest entries of the
  table.
\<close>

theorem compact_refines_spec:
  assumes "ROI_init yp xp lm dx' dy' rs = Inr roi" and "sorted (rsort roi)"
  shows "ROI_mean_r_squared_compact roi = Inr (spec_mean_r_squared_compact roi)
       \<and> ROI_mean_r_squared roi = Inr (spec_mean_r_squared roi)
       \<and> ROI_mean_r_squared0 roi = spec_mean_r_squared0 roi"
proof -
  have len: "length (ypix roi) = length (xpix roi)"
    using ROI_init_Inr[OF assms(1)] by simp
  have m: "ROI_mean_r_squared roi = Inr (spec_mean_r_squared roi)"
    using len by (rule ROI_mean_r_squared_spec)
  have z: "ROI_mean_r_squared0 roi = spec_mean_r_squared0 roi"
    using len assms(2) by (rule ROI_mean_r_squared0_spec)
  have "ROI_mean_r_squared_compact roi = Inr (spec_mean_r_squared_compact roi)"
    by (simp add: ROI_mean_r_squared_compact_def m z spec_mean_r_squared_compact_def
        fadd_commute)
  with m z show ?thesis by simp
qed


theorem compact_refines_spec_witness:
  "ROI_mean_r_squared_compact
       \<lparr>ypix = [Some 0, Some 0], xpix = [Some 0, Some 1], lam = [Some 1, Some 1],
        dx = Some 1, dy = Some 1, rsort = rsort_default\<rparr>
     = Inr (spec_mean_r_squared_compact
       \<lparr>ypix = [Some 0, Some 0], xpix = [Some 0, Some 1], lam = [Some 1, Some 1],
        dx = Some 1, dy = Some 1, rsort = rsort_default\<rparr>)
   \<and> ROI_mean_r_squared
       \<lparr>ypix = [Some 0, Some 0], xpix = [Some 0, Some 1], lam = [Some 1, Some 1],
        dx = Some 1, dy = Some 1, rsort = rsort_default\<rparr>
     = Inr (spec_mean_r_squared
       \<lparr>ypix = [Some 0, Some 0], xpix = [Some 0, Some 1], lam = [Some 1, Some 1],
        dx = Some 1, dy = Some 1, rsort = rsort_default\<rparr>)
   \<and> ROI_mean_r_squared0
       \<lparr>ypix = [Some 0, Some 0], xpix = [Some 0, Some 1], lam = [Some 1, Some 1],
        dx = Some 1, dy = Some 1, rsort = rsort_default\<rparr>
     = spec_mean_r_squared0
       \<lparr>ypix = [Some 0, Some 0], xpix = [Some 0, Some 1], lam = [Some 1, Some 1],
        dx = Some 1, dy = Some 1, rsort = rsort_default\<rparr>"
proof -
  let ?roi = "\<lparr>ypix = [Some 0, Some 0], xpix = [Some 0, Some 1], lam = [Some 1, Some 1],
        dx = Some 1, dy = Some 1, rsort = rsort_default\<rparr>"
  have a: "ROI_init [Some 0, Some 0] [Some 0, Some 1] [Some 1, Some 1] (Some 1) (Some 1) None
             = Inr ?roi"
    by (simp add: ROI_init_def)
  have b: "sorted (rsort ?roi)"
    by (simp add: sorted_rsort_default)
  show ?thesis
    by (rule compact_refines_spec[OF a b])
qed

lemma length_rsort_default: "length rsort_default = 3721"
  by (simp add: rsort_default_def length_radial_reference)

lemma fmean_map_Some:
  "rs \<noteq> [] \<Longrightarrow> fmean (map Some rs) = Some (sum_list rs / real (length rs))"
  by (simp add: fmean_def fsum_map_Some fdiv_Some)

text \<open>
  C10. The default reference table has (2*30+1)^2 = 3721 entries, and for every ROI built
  on it with \<open>n_pixels\<close> at least 3721, \<open>mean_r_squared0\<close> is the mean of the whole table: a
  finite constant that does not depend on \<open>n_pixels\<close>, obtained without an error.
\<close>

theorem baseline_saturates:
  assumes "ROI_init yp xp lm dx' dy' None = Inr roi" and "3721 \<le> ROI_n_pixels roi"
  shows "length rsort_default = 3721
       \<and> ROI_mean_r_squared0 roi = fmean (map Some rsort_default)
       \<and> ROI_mean_r_squared0 roi = Some (sum_list rsort_default / 3721)"
proof -
  have f: "length (ypix roi) = length (xpix roi)" "rsort roi = rsort_default"
    using ROI_init_Inr[OF assms(1)] by simp_all
  have "take (length (ypix roi)) (rsort roi) = rsort_default"
    using assms(2) f by (simp add: ROI_n_pixels_def length_rsort_default)
  then have a: "ROI_mean_r_squared0 roi = fmean (map Some rsort_default)"
    by (simp add: ROI_mean_r_squared0_def)
  have ne: "rsort_default \<noteq> []"
    using length_rsort_default by auto
  show ?thesis
    using a fmean_map_Some[OF ne] by (simp add: length_rsort_default)
qed

theorem baseline_saturates_witness:
  "length rsort_default = 3721
   \<and> ROI_mean_r_squared0 \<lparr>ypix = replicate 4000 (Some 0), xpix = replicate 4000 (Some 0),
         lam = replicate 4000 (Some 1), dx = None, dy = None, rsort = rsort_default\<rparr>
       = fmean (map Some rsort_default)
   \<and> ROI_mean_r_squared0 \<lparr>ypix = replicate 4000 (Some 0), xpix = replicate 4000 (Some 0),
         lam = replicate 4000 (Some 1), dx = None, dy = None, rsort = rsort_default\<rparr>
       = Some (sum_list rsort_default / 3721)"
proof -
  let ?roi = "\<lparr>ypix = replicate 4000 (Some 0), xpix = replicate 4000 (Some 0),
         lam = replicate 4000 (Some 1), dx = None, dy = None, rsort = rsort_default\<rparr>"
  have a: "ROI_init (replicate 4000 (Some 0)) (replicate 4000 (Some 0))
             (replicate 4000 (Some 1)) None None None = Inr ?roi"
    by (simp add: ROI_init_def)
  have b: "3721 \<le> ROI_n_pixels ?roi"
    by (simp add: ROI_n_pixels_def)
  show ?thesis
    by (rule baseline_saturates[OF a b])
qed

text \<open>
  C3. For every ROI whose \<open>dx\<close> or \<open>dy\<close> is absent, \<open>radii\<close> raises TypeError, and so do
  \<open>radius\<close> and \<open>aspect_ratio\<close>, which read \<open>radii\<close> first; nothing is written to the
  ROI. The other properties stay available on the same ROI: \<open>mean_r_squared\<close> and
  \<open>mean_r_squared_compact\<close> return, and with \<open>mean_r_squared0\<close>, \<open>median_pix\<close> and
  \<open>n_pixels\<close> they give what they give when both scale factors are present.
\<close>

theorem radii_need_scale_factors:
  assumes "ROI_init yp xp lm dx' dy' rs = Inr roi" and "dx' = None \<or> dy' = None"
  shows "ROI_radii solver roi = (roi, Inl TypeError)
       \<and> ROI_radius solver roi = (roi, Inl TypeError)
       \<and> ROI_aspect_ratio solver roi = (roi, Inl TypeError)
       \<and> \<not> isl (ROI_mean_r_squared roi)
       \<and> \<not> isl (ROI_mean_r_squared_compact roi)
       \<and> ROI_mean_r_squared roi = ROI_mean_r_squared (roi\<lparr>dx := Some 1, dy := Some 1\<rparr>)
       \<and> ROI_mean_r_squared_compact roi
           = ROI_mean_r_squared_compact (roi\<lparr>dx := Some 1, dy := Some 1\<rparr>)
       \<and> ROI_mean_r_squared0 roi = ROI_mean_r_squared0 (roi\<lparr>dx := Some 1, dy := Some 1\<rparr>)
       \<and> ROI_median_pix roi = ROI_median_pix (roi\<lparr>dx := Some 1, dy := Some 1\<rparr>)
       \<and> ROI_n_pixels roi = ROI_n_pixels (roi\<lparr>dx := Some 1, dy := Some 1\<rparr>)"
proof -
  have f: "length (ypix roi) = length (xpix roi)" "dx roi = dx'" "dy roi = dy'"
    using ROI_init_Inr[OF assms(1)] by simp_all
  have r: "ROI_radii solver roi = (roi, Inl TypeError)"
    using assms(2) f by (auto simp: ROI_radii_def split: option.split)
  have m: "\<not> isl (ROI_mean_r_squared roi)"
    using f(1) by (simp add: ROI_mean_r_squared_def mean_r_squared_def Let_def)
  have c: "\<not> isl (ROI_mean_r_squared_compact roi)"
    using m by (cases "ROI_mean_r_squared roi") (simp_all add: ROI_mean_r_squared_compact_def)
  let ?roi' = "roi\<lparr>dx := Some 1, dy := Some 1\<rparr>"
  have i1: "ROI_mean_r_squared ?roi' = ROI_mean_r_squared roi"
    by (simp add: ROI_mean_r_squared_def)
  have i2: "ROI_mean_r_squared0 ?roi' = ROI_mean_r_squared0 roi"
    by (simp add: ROI_mean_r_squared0_def)
  have i3: "ROI_mean_r_squared_compact ?roi' = ROI_mean_r_squared_compact roi"
    unfolding ROI_mean_r_squared_compact_def i1 i2 ..
  have i4: "ROI_median_pix ?roi' = ROI_median_pix roi"
    by (simp add: ROI_median_pix_def)
  have i5: "ROI_n_pixels ?roi' = ROI_n_pixels roi"
    by (simp add: ROI_n_pixels_def)
  have r1: "ROI_radius solver roi = (roi, Inl TypeError)"
    by (simp add: ROI_radius_def r)
  have r2: "ROI_aspect_ratio solver roi = (roi, Inl TypeError)"
    by (simp add: ROI_aspect_ratio_def r)
  show ?thesis
    unfolding i1 i2 i3 i4 i5 using r r1 r2 m c by simp
qed

theorem radii_need_scale_factors_witness:
  "ROI_radii eig_sym2 \<lparr>ypix = [Some 0, Some 1], xpix = [Some 0, Some 0],
         lam = [Some 1, Some 3], dx = None, dy = Some 1, rsort = rsort_default\<rparr>
     = (
       \<lparr>ypix = [Some 0, Some 1], xpix = [Some 0, Some 0],
         lam = [Some 1, Some 3], dx = None, dy = Some 1, rsort = rsort_default\<rparr>, Inl TypeError)
   \<and> ROI_radius eig_sym2 \<lparr>ypix = [Some 0, Some 1], xpix = [Some 0, Some 0],
         lam = [Some 1, Some 3], dx = None, dy = Some 1, rsort = rsort_default\<rparr>
     = (
       \<lparr>ypix = [Some 0, Some 1], xpix = [Some 0, Some 0],
         lam = [Some 1, Some 3], dx = None, dy = Some 1, rsort = rsort_default\<rparr>, Inl TypeError)
   \<and> ROI_aspect_ratio eig_sym2 \<lparr>ypix = [Some 0, Some 1], xpix = [Some 0, Some 0],
         lam = [Some 1, Some 3], dx = None, dy = Some 1, rsort = rsort_default\<rparr>
     = (
       \<lparr>ypix = [Some 0, Some 1], xpix = [Some 0, Some 0],
         lam = [Some 1, Some 3], dx = None, dy = Some 1, rsort = rsort_default\<rparr>, Inl TypeError)
   \<and> \<not> isl (ROI_mean_r_squared \<lparr>ypix = [Some 0, Some 1], xpix = [Some 0, Some 0],
         lam = [Some 1, Some 3], dx = None, dy = Some 1, rsort = rsort_default\<rparr>)
   \<and> \<not> isl (ROI_mean_r_squared_compact \<lparr>ypix = [Some 0, Some 1], xpix = [Some 0, Some 0],
         lam = [Some 1, Some 3], dx = None, dy = Some 1, rsort = rsort_default\<rparr>)"
proof -
  let ?roi = "\<lparr>ypix = [Some 0, Some 1], xpix = [Some 0, Some 0],
         lam = [Some 1, Some 3], dx = None, dy = Some 1, rsort = rsort_default\<rparr>"
  have a: "ROI_init [Some 0, Some 1] [Some 0, Some 0] [Some 1, Some 3] None (Some 1) None
             = Inr ?roi"
    by (simp add: ROI_init_def)
  have b: "(None :: int option) = None \<or> Some (1 :: int) = None"
    by simp
  show ?thesis
    using radii_need_scale_factors[OF a b, of eig_sym2] by fast
qed

subsection \<open>The legacy batch adapter\<close>

lemma ROI_of_stat_Inr:
  assumes "ROI_of_stat dy' dx' st = Inr roi"
  shows "get_arr st ''ypix'' = Inr (ypix roi) \<and> get_arr st ''xpix'' = Inr (xpix roi)
       \<and> get_arr st ''lam'' = Inr (lam roi)
       \<and> ROI_init (ypix roi) (xpix roi) (lam roi) (Some dx') (Some dy') None = Inr roi"
proof -
  from assms obtain vy vx vl xp yp lm where
    i: "stat_item st ''ypix'' = Inr vy" "stat_item st ''xpix'' = Inr vx"
       "stat_item st ''lam'' = Inr vl"
    and a: "array_of vx = Inr xp" "array_of vy = Inr yp" "array_of vl = Inr lm"
    and r: "ROI_init yp xp lm (Some dx') (Some dy') None = Inr roi"
    by (auto simp: ROI_of_stat_def split: sum.splits if_splits)
  have v: "vy = VArr yp" "vx = VArr xp" "vl = VArr lm"
    using a by (auto simp: array_of_def split: val.splits)
  have g: "get_arr st ''ypix'' = Inr yp" "get_arr st ''xpix'' = Inr xp"
      "get_arr st ''lam'' = Inr lm"
    using i v by (auto simp: stat_item_def get_arr_def split: option.splits)
  have f: "ypix roi = yp" "xpix roi = xp" "lam roi = lm"
    using ROI_init_Inr[OF r] by simp_all
  show ?thesis
    using g r unfolding f by simp
qed

text \<open>
  The errors come in the code's order: a missing key is reported before any value is
  looked at, and differing shapes of \<open>xpix\<close> and \<open>ypix\<close> before \<open>lam\<close> is.
\<close>

lemma ROI_of_stat_error_order:
  "ROI_of_stat 1 1 [''ypix'' \<mapsto> VNum (Some 0), ''lam'' \<mapsto> VArr []] = Inl KeyError"
  "ROI_of_stat 1 1 [''ypix'' \<mapsto> VArr [Some 0], ''xpix'' \<mapsto> VArr [], ''lam'' \<mapsto> VNum (Some 0)]
     = Inl TypeError"
  "ROI_of_stat 1 1 [''ypix'' \<mapsto> VArr [Some 0], ''xpix'' \<mapsto> VArr [Some 0], ''lam'' \<mapsto> VNum (Some 0)]
     = Inl AttributeError"
  by (simp_all add: ROI_of_stat_def stat_item_def array_of_def)

lemma roi_stats_record_fields:
  assumes "roi_stats_record solver dy' dx' st = Inr st1"
  shows "\<exists>xp m. get_arr st ''xpix'' = Inr xp
         \<and> st1 ''mrs'' = Some (VNum m)
         \<and> st1 ''npix'' = Some (VInt (int (length xp)))
         \<and> st1 ''footprint'' = st ''footprint''"
proof -
  from assms obtain roi m where
    r: "ROI_of_stat dy' dx' st = Inr roi" and m: "ROI_mean_r_squared roi = Inr m"
    by (auto simp: roi_stats_record_def split: sum.splits)
  have x: "get_arr st ''xpix'' = Inr (xpix roi)"
    using ROI_of_stat_Inr[OF r] by simp
  have "st1 ''mrs'' = Some (VNum m) \<and> st1 ''npix'' = Some (VInt (int (length (xpix roi))))
      \<and> st1 ''footprint'' = st ''footprint''"
    using assms r m
    by (auto simp: roi_stats_record_def Let_def ROI_n_pixels_def
        split: sum.splits if_splits prod.splits)
  with x show ?thesis by blast
qed

lemma roi_stats_records_nth:
  "roi_stats_records solver dy' dx' stats = Inr stats1 \<Longrightarrow>
     length stats1 = length stats
     \<and> (\<forall>i<length stats. roi_stats_record solver dy' dx' (stats ! i) = Inr (stats1 ! i))"
proof (induction stats arbitrary: stats1)
  case Nil
  then show ?case by simp
next
  case (Cons st sts)
  from Cons.prems obtain st1 sts1 where
    a: "roi_stats_record solver dy' dx' st = Inr st1"
    and b: "roi_stats_records solver dy' dx' sts = Inr sts1"
    and c: "stats1 = st1 # sts1"
    by (auto split: sum.splits)
  from Cons.IH[OF b] a c show ?case
    by (auto simp: nth_Cons')
qed

lemma get_nums_all:
  "list_all2 (\<lambda>st v. get_num st k = Inr v) sts vs \<Longrightarrow> get_nums sts k = Inr vs"
  by (induction rule: list_all2_induct) auto

lemma length_norm_by_average:
  "length (norm_by_average vs est off n) = length vs"
  by (simp add: norm_by_average_def Let_def)

lemma write_normeds_nth:
  "length ms = length sts \<Longrightarrow> length ns = length sts \<Longrightarrow>
     length (write_normeds sts ms ns) = length sts
     \<and> (\<forall>i<length sts. write_normeds sts ms ns ! i = write_normed (sts ! i) (ms ! i) (ns ! i))"
proof (induction sts ms ns rule: write_normeds.induct)
  case (1 st sts m ms n ns)
  then show ?case by (auto simp: nth_Cons')
qed auto

lemma get_nums_field:
  assumes "\<forall>i<length sts. \<exists>v. get_num (sts ! i) k = Inr v"
  shows "\<exists>vs. get_nums sts k = Inr vs \<and> length vs = length sts
           \<and> (\<forall>i<length sts. get_num (sts ! i) k = Inr (vs ! i))"
  using assms
proof (induction sts)
  case Nil
  then show ?case by simp
next
  case (Cons st sts)
  have "\<forall>i<length sts. \<exists>v. get_num (sts ! i) k = Inr v"
    using Cons.prems by (metis Suc_less_eq length_Cons nth_Cons_Suc)
  from Cons.IH[OF this] obtain vs where
    vs: "get_nums sts k = Inr vs" "length vs = length sts"
        "\<forall>i<length sts. get_num (sts ! i) k = Inr (vs ! i)"
    by blast
  from Cons.prems obtain v where v: "get_num st k = Inr v"
    by (metis length_greater_0_conv list.distinct(1) nth_Cons_0)
  have "get_nums (st # sts) k = Inr (v # vs)"
    by (simp add: v vs(1))
  moreover have "\<forall>i<length (st # sts). get_num ((st # sts) ! i) k = Inr ((v # vs) ! i)"
    using v vs(3) by (auto simp: nth_Cons')
  ultimately show ?case
    using vs(2) by (intro exI[of _ "v # vs"]) simp
qed

lemma median2: "np_median [Some a, Some b] = Some ((a + b) / 2)"
  by (simp add: np_median_def median_sorted_def Let_def insort_key.simps sort_key_def
      add.commute)

lemma median1: "np_median [Some a] = Some a"
  by (simp add: np_median_def median_sorted_def Let_def)

lemma median_square: "np_median [Some 0, Some 0, Some 1, Some 1] = Some (1 / 2)"
   and median_square': "np_median [Some 0, Some 1, Some 0, Some 1] = Some (1 / 2)"
  by (simp_all add: np_median_def median_sorted_def Let_def sort_key_def insort_key.simps)

lemma two_rois_first_pass: "\<not> isl (roi_stats_records eig_sym2 1 1 two_rois)"
  by (simp add: two_rois_def roi_stats_record_def ROI_of_stat_def stat_item_def array_of_def ROI_init_def ROI_mean_r_squared_def
      mean_r_squared_def median2 median_square median_square'
      ROI_mean_r_squared_compact_def ROI_n_pixels_def
      ROI_radius_def ROI_radii_def calc_radii_def fitMVGaus_def fit_normalized_def bcast_def
      dot_def np_linalg_eig_def eig_sym2_def ROI_aspect_ratio_def Let_def fdiv_Some fsqrt_def
      split: prod.split)

text \<open>
  C8 (as stated, refuted). On the batch of two records with 2 and 4 pixels the
  normalized pixel counts are 2/3 and 4/3, stored under \<open>npix_norm\<close>; the field \<open>npix\<close>
  still holds 2 and 4.
\<close>

theorem roi_stats_npix_counterexample:
  "map_sum id (map (\<lambda>st. (st ''npix'', st ''npix_norm''))) (roi_stats eig_sym2 1 1 two_rois)
   = Inr [(Some (VInt 2), Some (VNum (Some (2 / 3)))),
          (Some (VInt 4), Some (VNum (Some (4 / 3))))]"
  by (simp add: two_rois_def roi_stats_def roi_stats_record_def ROI_of_stat_def stat_item_def array_of_def
      ROI_init_def
      ROI_mean_r_squared_def mean_r_squared_def median2 median1 median_square median_square'
      ROI_mean_r_squared_compact_def ROI_n_pixels_def
      ROI_radius_def ROI_radii_def calc_radii_def fitMVGaus_def fit_normalized_def bcast_def
      dot_def np_linalg_eig_def eig_sym2_def ROI_aspect_ratio_def Let_def fdiv_Some fsqrt_def
      get_num_def norm_by_average_def write_normed_def
      split: prod.split)

text \<open>
  C8 (amended). After the per-record pass, \<open>roi_stats\<close> calls the population normalizer
  twice: on the \<open>mrs\<close> values (nanmedian, offset 1e-10, first 100) and on the \<open>npix\<close>
  values (default estimator, first 100). In every record it overwrites \<open>mrs\<close> with its
  normalized value and stores the normalized pixel count in a field of its own,
  \<open>npix_norm\<close>, leaving \<open>npix\<close> the raw pixel count; it sets \<open>footprint\<close> to 0 where it
  was absent and keeps it otherwise; every other field stays as the first pass left it.
\<close>

theorem roi_stats_second_pass:
  assumes "roi_stats_records solver dy' dx' stats = Inr stats1"
  shows "\<exists>mrs npix stats2.
           get_nums stats1 ''mrs'' = Inr mrs \<and> get_nums stats1 ''npix'' = Inr npix
         \<and> length mrs = length stats \<and> length npix = length stats
         \<and> roi_stats solver dy' dx' stats = Inr stats2 \<and> length stats2 = length stats
         \<and> (\<forall>i<length stats.
               (stats2 ! i) ''mrs''
                 = Some (VNum (norm_by_average mrs (Some np_nanmedian) (1 / 10 ^ 10) (Some 100) ! i))
             \<and> (stats2 ! i) ''npix_norm''
                 = Some (VNum (norm_by_average npix None 0 (Some 100) ! i))
             \<and> (\<exists>xp. get_arr (stats ! i) ''xpix'' = Inr xp
                    \<and> npix ! i = Some (real (length xp))
                    \<and> (stats2 ! i) ''npix'' = Some (VInt (int (length xp))))
             \<and> (stats2 ! i) ''footprint''
                 = (case (stats ! i) ''footprint'' of None \<Rightarrow> Some (VInt 0) | Some v \<Rightarrow> Some v)
             \<and> (\<forall>k. k \<noteq> ''mrs'' \<and> k \<noteq> ''npix_norm'' \<and> k \<noteq> ''footprint''
                    \<longrightarrow> (stats2 ! i) k = (stats1 ! i) k))"
proof -
  note rec = roi_stats_records_nth[OF assms]
  have len1: "length stats1 = length stats" using rec by simp
  have fields: "\<exists>xp m. get_arr (stats ! i) ''xpix'' = Inr xp
        \<and> (stats1 ! i) ''mrs'' = Some (VNum m)
        \<and> (stats1 ! i) ''npix'' = Some (VInt (int (length xp)))
        \<and> (stats1 ! i) ''footprint'' = (stats ! i) ''footprint''"
    if "i < length stats" for i
  proof -
    have "roi_stats_record solver dy' dx' (stats ! i) = Inr (stats1 ! i)"
      using rec that by simp
    then show ?thesis by (rule roi_stats_record_fields)
  qed
  have "\<forall>i<length stats1. \<exists>v. get_num (stats1 ! i) ''mrs'' = Inr v"
  proof (intro allI impI)
    fix i assume "i < length stats1"
    then have "i < length stats" using len1 by simp
    from fields[OF this] obtain m where "(stats1 ! i) ''mrs'' = Some (VNum m)"
      by blast
    then show "\<exists>v. get_num (stats1 ! i) ''mrs'' = Inr v"
      by (simp add: get_num_def)
  qed
  from get_nums_field[OF this] obtain mrs where
    gm: "get_nums stats1 ''mrs'' = Inr mrs" and lm: "length mrs = length stats"
    using len1 by auto
  have "\<forall>i<length stats1. \<exists>v. get_num (stats1 ! i) ''npix'' = Inr v"
  proof (intro allI impI)
    fix i assume "i < length stats1"
    then have "i < length stats" using len1 by simp
    from fields[OF this] obtain xp :: "f64 list"
      where "(stats1 ! i) ''npix'' = Some (VInt (int (length xp)))"
      by blast
    then show "\<exists>v. get_num (stats1 ! i) ''npix'' = Inr v"
      by (simp add: get_num_def)
  qed
  from get_nums_field[OF this] obtain npix where
    gn: "get_nums stats1 ''npix'' = Inr npix" and ln: "length npix = length stats"
    and nn: "\<forall>i<length stats1. get_num (stats1 ! i) ''npix'' = Inr (npix ! i)"
    using len1 by auto
  define ms where "ms = norm_by_average mrs (Some np_nanmedian) (1 / 10 ^ 10) (Some 100)"
  define ns where "ns = norm_by_average npix None 0 (Some 100)"
  define stats2 where "stats2 = write_normeds stats1 ms ns"
  have r: "roi_stats solver dy' dx' stats = Inr stats2"
    by (simp add: roi_stats_def assms gm gn Let_def stats2_def ms_def ns_def)
  have w: "length stats2 = length stats1
     \<and> (\<forall>i<length stats1. stats2 ! i = write_normed (stats1 ! i) (ms ! i) (ns ! i))"
    unfolding stats2_def
    by (rule write_normeds_nth) (simp_all add: lm ln len1 ms_def ns_def length_norm_by_average)
  have l2: "length stats2 = length stats" using w len1 by simp
  have each: "(stats2 ! i) ''mrs'' = Some (VNum (ms ! i))
      \<and> (stats2 ! i) ''npix_norm'' = Some (VNum (ns ! i))
      \<and> (\<exists>xp. get_arr (stats ! i) ''xpix'' = Inr xp
             \<and> npix ! i = Some (real (length xp))
             \<and> (stats2 ! i) ''npix'' = Some (VInt (int (length xp))))
      \<and> (stats2 ! i) ''footprint''
           = (case (stats ! i) ''footprint'' of None \<Rightarrow> Some (VInt 0) | Some v \<Rightarrow> Some v)
      \<and> (\<forall>k. k \<noteq> ''mrs'' \<and> k \<noteq> ''npix_norm'' \<and> k \<noteq> ''footprint''
             \<longrightarrow> (stats2 ! i) k = (stats1 ! i) k)"
    if i: "i < length stats" for i
  proof -
    from fields[OF i] obtain xp where
      f: "get_arr (stats ! i) ''xpix'' = Inr xp"
         "(stats1 ! i) ''npix'' = Some (VInt (int (length xp)))"
         "(stats1 ! i) ''footprint'' = (stats ! i) ''footprint''"
      by blast
    have e: "stats2 ! i = write_normed (stats1 ! i) (ms ! i) (ns ! i)"
      using w i len1 by simp
    have "get_num (stats1 ! i) ''npix'' = Inr (npix ! i)"
      using nn i len1 by simp
    then have n: "npix ! i = Some (real (length xp))"
      using f(2) by (simp add: get_num_def)
    have a: "(stats2 ! i) ''mrs'' = Some (VNum (ms ! i))"
      unfolding e by (simp add: write_normed_def)
    have b: "(stats2 ! i) ''npix_norm'' = Some (VNum (ns ! i))"
      unfolding e by (simp add: write_normed_def)
    have c: "(stats2 ! i) ''npix'' = Some (VInt (int (length xp)))"
      unfolding e using f(2) by (simp add: write_normed_def)
    have d: "(stats2 ! i) ''footprint''
           = (case (stats ! i) ''footprint'' of None \<Rightarrow> Some (VInt 0) | Some v \<Rightarrow> Some v)"
      unfolding e using f(3) by (simp add: write_normed_def split: option.split)
    have g: "\<forall>k. k \<noteq> ''mrs'' \<and> k \<noteq> ''npix_norm'' \<and> k \<noteq> ''footprint''
             \<longrightarrow> (stats2 ! i) k = (stats1 ! i) k"
      unfolding e by (simp add: write_normed_def)
    show ?thesis
      using a b c d g f(1) n by blast
  qed
  show ?thesis
    apply (rule exI[of _ mrs], rule exI[of _ npix], rule exI[of _ stats2])
    unfolding ms_def[symmetric] ns_def[symmetric]
    using gm gn lm ln r l2 each apply (intro conjI allI impI)
    apply blast+
    done
qed

theorem roi_stats_second_pass_witness:
  "\<exists>stats2. roi_stats eig_sym2 1 1 two_rois = Inr stats2 \<and> length stats2 = 2
      \<and> (stats2 ! 0) ''npix'' = Some (VInt 2) \<and> (stats2 ! 1) ''npix'' = Some (VInt 4)
      \<and> (stats2 ! 0) ''footprint'' = Some (VInt 0) \<and> (stats2 ! 1) ''footprint'' = Some (VInt 0)"
proof -
  have a: "roi_stats_records eig_sym2 1 1 two_rois
             = Inr (projr (roi_stats_records eig_sym2 1 1 two_rois))"
    using two_rois_first_pass by simp
  have l: "length two_rois = 2" "0 < length two_rois" "1 < length two_rois"
    by (simp_all add: two_rois_def)
  have x: "get_arr (two_rois ! 0) ''xpix'' = Inr [Some 0, Some 1]"
          "get_arr (two_rois ! 1) ''xpix'' = Inr [Some 0, Some 1, Some 0, Some 1]"
    by (simp_all add: two_rois_def get_arr_def)
  have f: "(two_rois ! 0) ''footprint'' = None" "(two_rois ! 1) ''footprint'' = None"
    by (simp_all add: two_rois_def)
  from roi_stats_second_pass[OF a] obtain mrs npix stats2 where
    s: "roi_stats eig_sym2 1 1 two_rois = Inr stats2" and ls: "length stats2 = length two_rois"
    and e: "\<forall>i<length two_rois.
               (stats2 ! i) ''mrs''
                 = Some (VNum (norm_by_average mrs (Some np_nanmedian) (1 / 10 ^ 10) (Some 100) ! i))
             \<and> (stats2 ! i) ''npix_norm''
                 = Some (VNum (norm_by_average npix None 0 (Some 100) ! i))
             \<and> (\<exists>xp. get_arr (two_rois ! i) ''xpix'' = Inr xp
                    \<and> npix ! i = Some (real (length xp))
                    \<and> (stats2 ! i) ''npix'' = Some (VInt (int (length xp))))
             \<and> (stats2 ! i) ''footprint''
                 = (case (two_rois ! i) ''footprint'' of None \<Rightarrow> Some (VInt 0) | Some v \<Rightarrow> Some v)
             \<and> (\<forall>k. k \<noteq> ''mrs'' \<and> k \<noteq> ''npix_norm'' \<and> k \<noteq> ''footprint''
                    \<longrightarrow> (stats2 ! i) k
                        = (projr (roi_stats_records eig_sym2 1 1 two_rois) ! i) k)"
    apply (elim exE conjE)
    subgoal premises p for mrs npix stats2
      by (rule p(1)) (rule p)+
    done
  note e0' = e[rule_format, OF l(2)]
  note e1' = e[rule_format, OF l(3)]
  have e0: "(stats2 ! 0) ''npix'' = Some (VInt 2)" "(stats2 ! 0) ''footprint'' = Some (VInt 0)"
    using e0' x(1) f(1) by auto
  have e1: "(stats2 ! 1) ''npix'' = Some (VInt 4)" "(stats2 ! 1) ''footprint'' = Some (VInt 0)"
    using e1' x(2) f(2) by auto
  show ?thesis
    using s ls l(1) e0 e1 by simp
qed

end
